theory Spec2Isabelle
  imports Main "HOL-Library.Word"
begin

section \<open>Lazy decompression of HTTP response bodies (decompress.go)\<close>

subsection \<open>Errors, the transport stream and the external codecs\<close>

type_synonym byte = "8 word"

text \<open>Go error values: \<open>io.EOF\<close>, \<open>io.ErrUnexpectedEOF\<close>, and any other error
  (I/O failure, malformed codec header, ...) identified by a number.\<close>

datatype error = EOF | ErrUnexpectedEOF | ErrOther nat

text \<open>A run-time panic: a method called through a nil interface value.\<close>

datatype panic = NilPointerDereference

text \<open>The five decoder libraries the file imports.\<close>

datatype kind = Gzip | Brotli | Zlib | Flate | Zstd

text \<open>
  The transport's byte stream (an external collaborator). Each \<open>Read\<close> delivers at most
  one pending chunk, cut to the buffer length; when no chunk is left every \<open>Read\<close> returns
  \<open>(0, fin)\<close>. \<open>close_err\<close> is what its \<open>Close\<close> returns.
\<close>

record source =
  chunks :: "byte list list"
  fin :: error
  close_err :: "error option"

text \<open>
  The dynamic type of an \<open>io.ReadCloser\<close> held in \<open>res.Body\<close>: the transport's stream,
  the \<open>io.NopCloser(io.MultiReader(...))\<close> built by the deflate branch (the list is
  \<open>multiReader.readers\<close>), or one of the five lazy readers with its fields
  \<open>body\<close>, \<open>r\<close> (nil is \<open>None\<close>) and \<open>err\<close> (nil is \<open>None\<close>).
  \<open>'d\<close> is the state of a constructed decoder.
\<close>

datatype 'd body =
    Orig
  | NopCloserMulti "'d reader list"
  | GzipReader "'d body" "'d option" "error option"
  | BrReader "'d body" "'d option" "error option"
  | ZlibDeflateReader "'d body" "'d option" "error option"
  | DeflateReader "'d body" "'d option" "error option"
  | ZstdReader "'d body" "'d option" "error option"
and 'd reader =
    BytesReader "byte list"
  | BodyReader "'d body"

text \<open>Calls made by the code of this file on its collaborators, in order.\<close>

datatype event =
    SrcRead nat
  | SrcClose
  | NewDecoder kind
  | DecoderRead nat
  | DecoderClose

record world =
  src :: source
  trace :: "event list"

text \<open>
  The decoder libraries are parameters. A constructor receives the reader it is given
  (with the transport stream behind it), may read from it, and returns either an error or
  a decoder; \<open>brotli.NewReader\<close> and \<open>flate.NewReader\<close> have no error result.
  \<open>dec_Read\<close> and \<open>dec_Close\<close> are the methods of a constructed decoder.
\<close>

record 'd codec =
  gzip_NewReader :: "'d body \<times> source \<Rightarrow> (error + 'd) \<times> 'd body \<times> source"
  brotli_NewReader :: "'d body \<times> source \<Rightarrow> 'd \<times> 'd body \<times> source"
  zlib_NewReader :: "'d body \<times> source \<Rightarrow> (error + 'd) \<times> 'd body \<times> source"
  flate_NewReader :: "'d body \<times> source \<Rightarrow> 'd \<times> 'd body \<times> source"
  zstd_NewReader :: "'d body \<times> source \<Rightarrow> (error + 'd) \<times> 'd body \<times> source"
  dec_Read :: "'d \<Rightarrow> nat \<Rightarrow> 'd body \<times> source
                 \<Rightarrow> (byte list \<times> error option) \<times> 'd \<times> 'd body \<times> source"
  dec_Close :: "'d \<Rightarrow> 'd body \<times> source \<Rightarrow> error option \<times> 'd \<times> 'd body \<times> source"

type_synonym 'd rd = "(byte list \<times> error option) \<times> 'd body \<times> world"

definition log :: "event \<Rightarrow> world \<Rightarrow> world" where
  "log ev w = w\<lparr>trace := trace w @ [ev]\<rparr>"

definition source_Read :: "nat \<Rightarrow> source \<Rightarrow> (byte list \<times> error option) \<times> source" where
  "source_Read k s =
     (case chunks s of
        [] \<Rightarrow> (([], Some (fin s)), s)
      | c # cs \<Rightarrow>
          ((take k c, None),
           s\<lparr>chunks := (if drop k c = [] then cs else drop k c # cs)\<rparr>))"

text \<open>\<open>bytes.Reader.Read\<close>: EOF once the slice is used up, else a copy without error.\<close>

definition bytesReader_Read :: "nat \<Rightarrow> byte list \<Rightarrow> (byte list \<times> error option) \<times> byte list" where
  "bytesReader_Read k bs =
     (if bs = [] then (([], Some EOF), bs) else ((take k bs, None), drop k bs))"

subsection \<open>The lazy readers\<close>

definition gzipReader_Read ::
  "'d codec \<Rightarrow> 'd body \<Rightarrow> 'd option \<Rightarrow> error option \<Rightarrow> nat \<Rightarrow> world \<Rightarrow> 'd rd" where
  "gzipReader_Read cd b r err k w =
     (case err of
        Some e \<Rightarrow> (([], Some e), GzipReader b r err, w)
      | None \<Rightarrow>
          (case r of
             Some d \<Rightarrow>
               (case dec_Read cd d k (b, src w) of
                  (res, d', b', s') \<Rightarrow>
                    (res, GzipReader b' (Some d') None, log (DecoderRead k) (w\<lparr>src := s'\<rparr>)))
           | None \<Rightarrow>
               (case gzip_NewReader cd (b, src w) of
                  (Inl e, b', s') \<Rightarrow>
                    (([], Some e), GzipReader b' None (Some e),
                     log (NewDecoder Gzip) (w\<lparr>src := s'\<rparr>))
                | (Inr d, b', s') \<Rightarrow>
                    (case dec_Read cd d k (b', s') of
                       (res, d', b'', s'') \<Rightarrow>
                         (res, GzipReader b'' (Some d') None,
                          log (DecoderRead k) (log (NewDecoder Gzip) (w\<lparr>src := s''\<rparr>)))))))"

definition brReader_Read ::
  "'d codec \<Rightarrow> 'd body \<Rightarrow> 'd option \<Rightarrow> error option \<Rightarrow> nat \<Rightarrow> world \<Rightarrow> 'd rd" where
  "brReader_Read cd b r err k w =
     (case err of
        Some e \<Rightarrow> (([], Some e), BrReader b r err, w)
      | None \<Rightarrow>
          (case r of
             Some d \<Rightarrow>
               (case dec_Read cd d k (b, src w) of
                  (res, d', b', s') \<Rightarrow>
                    (res, BrReader b' (Some d') None, log (DecoderRead k) (w\<lparr>src := s'\<rparr>)))
           | None \<Rightarrow>
               (case brotli_NewReader cd (b, src w) of
                  (d, b', s') \<Rightarrow>
                    (case dec_Read cd d k (b', s') of
                       (res, d', b'', s'') \<Rightarrow>
                         (res, BrReader b'' (Some d') None,
                          log (DecoderRead k) (log (NewDecoder Brotli) (w\<lparr>src := s''\<rparr>)))))))"

definition zlibDeflateReader_Read ::
  "'d codec \<Rightarrow> 'd body \<Rightarrow> 'd option \<Rightarrow> error option \<Rightarrow> nat \<Rightarrow> world \<Rightarrow> 'd rd" where
  "zlibDeflateReader_Read cd b r err k w =
     (case err of
        Some e \<Rightarrow> (([], Some e), ZlibDeflateReader b r err, w)
      | None \<Rightarrow>
          (case r of
             Some d \<Rightarrow>
               (case dec_Read cd d k (b, src w) of
                  (res, d', b', s') \<Rightarrow>
                    (res, ZlibDeflateReader b' (Some d') None,
                     log (DecoderRead k) (w\<lparr>src := s'\<rparr>)))
           | None \<Rightarrow>
               (case zlib_NewReader cd (b, src w) of
                  (Inl e, b', s') \<Rightarrow>
                    (([], Some e), ZlibDeflateReader b' None (Some e),
                     log (NewDecoder Zlib) (w\<lparr>src := s'\<rparr>))
                | (Inr d, b', s') \<Rightarrow>
                    (case dec_Read cd d k (b', s') of
                       (res, d', b'', s'') \<Rightarrow>
                         (res, ZlibDeflateReader b'' (Some d') None,
                          log (DecoderRead k) (log (NewDecoder Zlib) (w\<lparr>src := s''\<rparr>)))))))"

definition deflateReader_Read ::
  "'d codec \<Rightarrow> 'd body \<Rightarrow> 'd option \<Rightarrow> error option \<Rightarrow> nat \<Rightarrow> world \<Rightarrow> 'd rd" where
  "deflateReader_Read cd b r err k w =
     (case err of
        Some e \<Rightarrow> (([], Some e), DeflateReader b r err, w)
      | None \<Rightarrow>
          (case r of
             Some d \<Rightarrow>
               (case dec_Read cd d k (b, src w) of
                  (res, d', b', s') \<Rightarrow>
                    (res, DeflateReader b' (Some d') None,
                     log (DecoderRead k) (w\<lparr>src := s'\<rparr>)))
           | None \<Rightarrow>
               (case flate_NewReader cd (b, src w) of
                  (d, b', s') \<Rightarrow>
                    (case dec_Read cd d k (b', s') of
                       (res, d', b'', s'') \<Rightarrow>
                         (res, DeflateReader b'' (Some d') None,
                          log (DecoderRead k) (log (NewDecoder Flate) (w\<lparr>src := s''\<rparr>)))))))"

definition zstdReader_Read ::
  "'d codec \<Rightarrow> 'd body \<Rightarrow> 'd option \<Rightarrow> error option \<Rightarrow> nat \<Rightarrow> world \<Rightarrow> 'd rd" where
  "zstdReader_Read cd b r err k w =
     (case err of
        Some e \<Rightarrow> (([], Some e), ZstdReader b r err, w)
      | None \<Rightarrow>
          (case r of
             Some d \<Rightarrow>
               (case dec_Read cd d k (b, src w) of
                  (res, d', b', s') \<Rightarrow>
                    (res, ZstdReader b' (Some d') None, log (DecoderRead k) (w\<lparr>src := s'\<rparr>)))
           | None \<Rightarrow>
               (case zstd_NewReader cd (b, src w) of
                  (Inl e, b', s') \<Rightarrow>
                    (([], Some e), ZstdReader b' None (Some e),
                     log (NewDecoder Zstd) (w\<lparr>src := s'\<rparr>))
                | (Inr d, b', s') \<Rightarrow>
                    (case dec_Read cd d k (b', s') of
                       (res, d', b'', s'') \<Rightarrow>
                         (res, ZstdReader b'' (Some d') None,
                          log (DecoderRead k) (log (NewDecoder Zstd) (w\<lparr>src := s''\<rparr>)))))))"

text \<open>
  \<open>Read\<close> through the interface: dispatch on the dynamic type. \<open>multi_Read\<close> is
  \<open>multiReader.Read\<close>: a reader that reports EOF is dropped; a result with data or with
  an error other than EOF is returned (EOF is hidden while readers remain); otherwise
  the loop goes on to the next reader.
\<close>

fun read_body :: "'d codec \<Rightarrow> 'd body \<Rightarrow> nat \<Rightarrow> world \<Rightarrow> 'd rd"
and multi_Read :: "'d codec \<Rightarrow> 'd reader list \<Rightarrow> nat \<Rightarrow> world
                     \<Rightarrow> (byte list \<times> error option) \<times> 'd reader list \<times> world"
and reader_Read :: "'d codec \<Rightarrow> 'd reader \<Rightarrow> nat \<Rightarrow> world
                     \<Rightarrow> (byte list \<times> error option) \<times> 'd reader \<times> world"
where
  "read_body cd Orig k w =
     (case source_Read k (src w) of (res, s') \<Rightarrow> (res, Orig, log (SrcRead k) (w\<lparr>src := s'\<rparr>)))"
| "read_body cd (NopCloserMulti rds) k w =
     (case multi_Read cd rds k w of (res, rds', w') \<Rightarrow> (res, NopCloserMulti rds', w'))"
| "read_body cd (GzipReader b r err) k w = gzipReader_Read cd b r err k w"
| "read_body cd (BrReader b r err) k w = brReader_Read cd b r err k w"
| "read_body cd (ZlibDeflateReader b r err) k w = zlibDeflateReader_Read cd b r err k w"
| "read_body cd (DeflateReader b r err) k w = deflateReader_Read cd b r err k w"
| "read_body cd (ZstdReader b r err) k w = zstdReader_Read cd b r err k w"
| "multi_Read cd [] k w = (([], Some EOF), [], w)"
| "multi_Read cd (rd # rds) k w =
     (case reader_Read cd rd k w of
        ((bs, e), rd', w') \<Rightarrow>
          (let rds' = (if e = Some EOF then rds else rd' # rds) in
           if bs \<noteq> [] \<or> e \<noteq> Some EOF
           then ((bs, if e = Some EOF \<and> rds' \<noteq> [] then None else e), rds', w')
           else multi_Read cd rds k w'))"
| "reader_Read cd (BytesReader bs) k w =
     (case bytesReader_Read k bs of (res, bs') \<Rightarrow> (res, BytesReader bs', w))"
| "reader_Read cd (BodyReader b) k w =
     (case read_body cd b k w of (res, b', w') \<Rightarrow> (res, BodyReader b', w'))"

text \<open>
  \<open>Close\<close> through the interface. The transport's stream is closed by its own
  \<open>Close\<close>; \<open>io.NopCloser\<close> returns nil and closes nothing. \<open>gzipReader\<close>,
  \<open>brReader\<close> and \<open>zstdReader\<close> return \<open>body.Close()\<close>; \<open>zlibDeflateReader\<close> and
  \<open>deflateReader\<close> return \<open>r.Close()\<close>, a method call on the interface value \<open>r\<close>,
  which panics while \<open>r\<close> is nil.
\<close>

fun close_body :: "'d codec \<Rightarrow> 'd body \<Rightarrow> world \<Rightarrow> panic + (error option \<times> 'd body \<times> world)" where
  "close_body cd Orig w = Inr (close_err (src w), Orig, log SrcClose w)"
| "close_body cd (NopCloserMulti rds) w = Inr (None, NopCloserMulti rds, w)"
| "close_body cd (GzipReader b r err) w =
     (case close_body cd b w of
        Inl p \<Rightarrow> Inl p
      | Inr (e, b', w') \<Rightarrow> Inr (e, GzipReader b' r err, w'))"
| "close_body cd (BrReader b r err) w =
     (case close_body cd b w of
        Inl p \<Rightarrow> Inl p
      | Inr (e, b', w') \<Rightarrow> Inr (e, BrReader b' r err, w'))"
| "close_body cd (ZlibDeflateReader b r err) w =
     (case r of
        None \<Rightarrow> Inl NilPointerDereference
      | Some d \<Rightarrow>
          (case dec_Close cd d (b, src w) of
             (e, d', b', s') \<Rightarrow>
               Inr (e, ZlibDeflateReader b' (Some d') err, log DecoderClose (w\<lparr>src := s'\<rparr>))))"
| "close_body cd (DeflateReader b r err) w =
     (case r of
        None \<Rightarrow> Inl NilPointerDereference
      | Some d \<Rightarrow>
          (case dec_Close cd d (b, src w) of
             (e, d', b', s') \<Rightarrow>
               Inr (e, DeflateReader b' (Some d') err, log DecoderClose (w\<lparr>src := s'\<rparr>))))"
| "close_body cd (ZstdReader b r err) w =
     (case close_body cd b w of
        Inl p \<Rightarrow> Inl p
      | Inr (e, b', w') \<Rightarrow> Inr (e, ZstdReader b' r err, w'))"

subsection \<open>\<open>io.ReadFull\<close>\<close>

text \<open>
  \<open>io.ReadAtLeast\<close> with \<open>min = len(buf)\<close>: read into the rest of the buffer until it is
  full or a read reports an error. A reader that keeps returning \<open>(0, nil)\<close> keeps the
  loop running, so the result is optional: \<open>None\<close> is a call that never returns.
\<close>

definition ReadAtLeast_err :: "nat \<Rightarrow> byte list \<Rightarrow> error option \<Rightarrow> error option" where
  "ReadAtLeast_err m acc e =
     (if m \<le> length acc then None
      else if acc \<noteq> [] \<and> e = Some EOF then Some ErrUnexpectedEOF
      else e)"

partial_function (option) ReadAtLeast ::
  "'d codec \<Rightarrow> nat \<Rightarrow> byte list \<Rightarrow> 'd body \<Rightarrow> world \<Rightarrow> ('d rd) option" where
  "ReadAtLeast cd m acc b w =
     (if length acc < m then
        (case read_body cd b (m - length acc) w of
           ((bs, e), b', w') \<Rightarrow>
             (if e = None then ReadAtLeast cd m (acc @ bs) b' w'
              else Some ((acc @ bs, ReadAtLeast_err m (acc @ bs) e), b', w')))
      else Some ((acc, ReadAtLeast_err m acc None), b, w))"

declare ReadAtLeast.simps [code]

definition ReadFull :: "'d codec \<Rightarrow> 'd body \<Rightarrow> nat \<Rightarrow> world \<Rightarrow> ('d rd) option" where
  "ReadFull cd b m w = ReadAtLeast cd m [] b w"

subsection \<open>The response\<close>

text \<open>
  Modelled from the spec: the \<open>Header\<close> type and its \<open>Get\<close> and \<open>Del\<close> are not in the
  source given. The spec describes a header mapping from string keys to string values,
  first match wins for repeated keys, with a lookup by exact key (the empty string when
  the key is absent) and an entry removal by exact key.
\<close>

type_synonym header = "(string \<times> string) list"

definition Get :: "header \<Rightarrow> string \<Rightarrow> string" where
  "Get h k = (case map_of h k of None \<Rightarrow> [] | Some v \<Rightarrow> v)"

definition Del :: "header \<Rightarrow> string \<Rightarrow> header" where
  "Del h k = filter (\<lambda>kv. fst kv \<noteq> k) h"

text \<open>
  Modelled from the spec: the \<open>Response\<close> struct is not in the source given. These are
  the four fields \<open>DecompressBody\<close> uses; \<open>ContentLength\<close> is a signed integer.
\<close>

record 'd response =
  Header :: header
  Body :: "'d body"
  Uncompressed :: bool
  ContentLength :: int

definition zlibMethodDeflate :: byte where "zlibMethodDeflate = 0x78"
definition zlibLevelDefault :: byte where "zlibLevelDefault = 0x9C"
definition zlibLevelLow :: byte where "zlibLevelLow = 0x01"
definition zlibLevelMedium :: byte where "zlibLevelMedium = 0x5E"
definition zlibLevelBest :: byte where "zlibLevelBest = 0xDA"

text \<open>The four statements after the \<open>switch\<close>.\<close>

definition after_switch :: "'d response \<Rightarrow> 'd response" where
  "after_switch res =
     res\<lparr>Header := Del (Del (Header res) ''Content-Encoding'') ''Content-Length'',
         Uncompressed := True,
         ContentLength := - 1\<rparr>"

text \<open>
  The \<open>deflate\<close> case once \<open>io.ReadFull\<close> has returned without error: \<open>header\<close> is the
  two-byte array (zero-initialised, filled by the read), \<open>b\<close> the body after the read.
\<close>

definition deflate_case :: "'d response \<Rightarrow> byte list \<Rightarrow> 'd body \<Rightarrow> 'd response" where
  "deflate_case res header b =
     (let res1 = res\<lparr>Body := NopCloserMulti [BytesReader header, BodyReader b]\<rparr> in
      if header ! 0 = zlibMethodDeflate \<and>
         (header ! 1 = zlibLevelDefault \<or> header ! 1 = zlibLevelLow \<or>
          header ! 1 = zlibLevelMedium \<or> header ! 1 = zlibLevelBest)
      then res1\<lparr>Body := ZlibDeflateReader (Body res1) None None\<rparr>
      else if header ! 0 = zlibMethodDeflate
      then res1\<lparr>Body := DeflateReader (Body res1) None None\<rparr>
      else res1)"

definition DecompressBody :: "'d codec \<Rightarrow> 'd response \<Rightarrow> world \<Rightarrow> ('d response \<times> world) option" where
  "DecompressBody cd res w =
     (let ce = Get (Header res) ''Content-Encoding'' in
      if ce = ''gzip'' then
        Some (after_switch (res\<lparr>Body := GzipReader (Body res) None None\<rparr>), w)
      else if ce = ''br'' then
        Some (after_switch (res\<lparr>Body := BrReader (Body res) None None\<rparr>), w)
      else if ce = ''deflate'' then
        (case ReadFull cd (Body res) 2 w of
           None \<Rightarrow> None
         | Some ((bs, e), b', w') \<Rightarrow>
             (if e \<noteq> None then Some (res\<lparr>Body := b'\<rparr>, w')
              else Some (deflate_case res (take 2 (bs @ [0, 0])) b', w')))
      else if ce = ''zstd'' then
        Some (after_switch (res\<lparr>Body := ZstdReader (Body res) None None\<rparr>), w)
      else Some (res, w))"

subsection \<open>Observing a reader\<close>

text \<open>The bytes the transport stream has not delivered yet.\<close>

definition pending :: "world \<Rightarrow> byte list" where
  "pending w = concat (chunks (src w))"

text \<open>
  Reading a body to exhaustion with a buffer of \<open>k\<close> bytes: call \<open>Read\<close> until it
  reports an error, and return the bytes collected together with that error.
\<close>

partial_function (option) read_to_end ::
  "'d codec \<Rightarrow> nat \<Rightarrow> byte list \<Rightarrow> 'd body \<Rightarrow> world \<Rightarrow> (byte list \<times> error) option" where
  "read_to_end cd k acc b w =
     (case read_body cd b k w of
        ((bs, e), b', w') \<Rightarrow>
          (case e of
             None \<Rightarrow> read_to_end cd k (acc @ bs) b' w'
           | Some err \<Rightarrow> Some (acc @ bs, err)))"

declare read_to_end.simps [code]

text \<open>A run of \<open>Read\<close> calls on one body, with the result of each call.\<close>

fun reads :: "'d codec \<Rightarrow> 'd body \<Rightarrow> nat list \<Rightarrow> world
               \<Rightarrow> (byte list \<times> error option) list \<times> 'd body \<times> world" where
  "reads cd b [] w = ([], b, w)"
| "reads cd b (k # ks) w =
     (case read_body cd b k w of
        (res, b', w') \<Rightarrow>
          (case reads cd b' ks w' of (rs, b'', w'') \<Rightarrow> (res # rs, b'', w'')))"

text \<open>A run of \<open>Read\<close> and \<open>Close\<close> calls on one body; a panic ends the run.\<close>

datatype op = Read nat | Close

fun run :: "'d codec \<Rightarrow> op list \<Rightarrow> 'd body \<times> world \<Rightarrow> 'd body \<times> world" where
  "run cd [] st = st"
| "run cd (Read k # ops) (b, w) =
     (case read_body cd b k w of (res, b', w') \<Rightarrow> run cd ops (b', w'))"
| "run cd (Close # ops) (b, w) =
     (case close_body cd b w of
        Inl p \<Rightarrow> (b, w)
      | Inr (e, b', w') \<Rightarrow> run cd ops (b', w'))"

fun is_NewDecoder :: "event \<Rightarrow> bool" where
  "is_NewDecoder (NewDecoder kd) = True"
| "is_NewDecoder ev = False"

fun is_Read :: "op \<Rightarrow> bool" where
  "is_Read (Read k) = True"
| "is_Read Close = False"

text \<open>How many decoders have been constructed so far.\<close>

definition constructions :: "world \<Rightarrow> nat" where
  "constructions w = length (filter is_NewDecoder (trace w))"

text \<open>The lazy reader of each decoder library, and that library's constructor.\<close>

fun lazy :: "kind \<Rightarrow> 'd body \<Rightarrow> 'd option \<Rightarrow> error option \<Rightarrow> 'd body" where
  "lazy Gzip b r err = GzipReader b r err"
| "lazy Brotli b r err = BrReader b r err"
| "lazy Zlib b r err = ZlibDeflateReader b r err"
| "lazy Flate b r err = DeflateReader b r err"
| "lazy Zstd b r err = ZstdReader b r err"

fun construct :: "'d codec \<Rightarrow> kind \<Rightarrow> 'd body \<times> source \<Rightarrow> (error + 'd) \<times> 'd body \<times> source" where
  "construct cd Gzip low = gzip_NewReader cd low"
| "construct cd Brotli low = (case brotli_NewReader cd low of (d, low') \<Rightarrow> (Inr d, low'))"
| "construct cd Zlib low = zlib_NewReader cd low"
| "construct cd Flate low = (case flate_NewReader cd low of (d, low') \<Rightarrow> (Inr d, low'))"
| "construct cd Zstd low = zstd_NewReader cd low"

text \<open>The fields \<open>r\<close> and \<open>err\<close> of a lazy reader: has it left its initial state?\<close>

fun settled :: "'d body \<Rightarrow> bool" where
  "settled (GzipReader b r err) = (\<not> (r = None \<and> err = None))"
| "settled (BrReader b r err) = (\<not> (r = None \<and> err = None))"
| "settled (ZlibDeflateReader b r err) = (\<not> (r = None \<and> err = None))"
| "settled (DeflateReader b r err) = (\<not> (r = None \<and> err = None))"
| "settled (ZstdReader b r err) = (\<not> (r = None \<and> err = None))"
| "settled b = False"

fun is_lazy :: "'d body \<Rightarrow> bool" where
  "is_lazy Orig = False"
| "is_lazy (NopCloserMulti rds) = False"
| "is_lazy b = True"

subsection \<open>Example inputs\<close>

text \<open>
  A stand-in for the decoder libraries, with a number as decoder state: the gzip and
  zstd constructors reject their input, the others accept it; a decoder's \<open>Read\<close>
  reports EOF and its \<open>Close\<close> succeeds.
\<close>

definition demo_codec :: "nat codec" where
  "demo_codec =
     \<lparr>gzip_NewReader = (\<lambda>low. (Inl (ErrOther 1), low)),
      brotli_NewReader = (\<lambda>low. (0, low)),
      zlib_NewReader = (\<lambda>low. (Inr 0, low)),
      flate_NewReader = (\<lambda>low. (0, low)),
      zstd_NewReader = (\<lambda>low. (Inl (ErrOther 2), low)),
      dec_Read = (\<lambda>d k low. (([], Some EOF), Suc d, low)),
      dec_Close = (\<lambda>d low. (None, d, low))\<rparr>"

definition demo_world :: "byte list list \<Rightarrow> world" where
  "demo_world cs = \<lparr>src = \<lparr>chunks = cs, fin = EOF, close_err = None\<rparr>, trace = []\<rparr>"

definition demo_response :: "string \<Rightarrow> nat response" where
  "demo_response ce =
     \<lparr>Header = [(''Content-Encoding'', ce), (''Content-Length'', ''6'')],
      Body = Orig, Uncompressed = False, ContentLength = 6\<rparr>"

section \<open>Properties\<close>

subsection \<open>Basic facts\<close>

lemma src_log [simp]: "src (log ev w) = src w"
  by (simp add: log_def)

lemma trace_log [simp]: "trace (log ev w) = trace w @ [ev]"
  by (simp add: log_def)

lemma Del_absent: "k \<notin> fst ` set (Del h k)"
  by (auto simp: Del_def)

lemma Del_absent_other: "k \<notin> fst ` set h \<Longrightarrow> k \<notin> fst ` set (Del h k')"
  by (auto simp: Del_def)

subsection \<open>\<open>io.ReadFull\<close> on the transport stream\<close>

lemma read_body_Orig_nil:
  "chunks (src w) = [] \<Longrightarrow>
   read_body cd Orig k w = (([], Some (fin (src w))), Orig, log (SrcRead k) w)"
  by (simp add: source_Read_def log_def)

lemma read_body_Orig_Cons:
  "chunks (src w) = c # cs \<Longrightarrow>
   read_body cd Orig k w =
     ((take k c, None), Orig,
      log (SrcRead k) (w\<lparr>src := (src w)\<lparr>chunks := (if drop k c = [] then cs else drop k c # cs)\<rparr>\<rparr>))"
  by (simp add: source_Read_def)

lemma ReadAtLeast_Orig:
  "length acc \<le> m \<Longrightarrow>
   \<exists>w'. ReadAtLeast cd m acc Orig w =
           Some ((acc @ take (m - length acc) (pending w),
                  ReadAtLeast_err m (acc @ pending w) (Some (fin (src w)))), Orig, w')
      \<and> pending w' = drop (m - length acc) (pending w)
      \<and> fin (src w') = fin (src w) \<and> close_err (src w') = close_err (src w)"
proof (induction "length (pending w) + length (chunks (src w))" arbitrary: acc w rule: less_induct)
  case less
  show ?case
  proof (cases "length acc < m")
    case False
    with less.prems have "length acc = m" by simp
    then show ?thesis
      by (subst ReadAtLeast.simps) (simp add: ReadAtLeast_err_def)
  next
    case True
    show ?thesis
    proof (cases "chunks (src w)")
      case Nil
      then show ?thesis using True
        by (subst ReadAtLeast.simps) (simp add: read_body_Orig_nil pending_def del: read_body.simps)
    next
      case (Cons c cs)
      let ?k = "m - length acc"
      let ?w' = "log (SrcRead ?k) (w\<lparr>src := (src w)\<lparr>chunks := (if drop ?k c = [] then cs else drop ?k c # cs)\<rparr>\<rparr>)"
      have smaller: "length (pending ?w') + length (chunks (src ?w')) < length (pending w) + length (chunks (src w))"
        using True Cons by (auto simp: pending_def log_def)
      have le: "length (acc @ take ?k c) \<le> m" using True by simp
      from less.hyps[OF smaller le] obtain w'' where
        w'': "ReadAtLeast cd m (acc @ take ?k c) Orig ?w' =
           Some (((acc @ take ?k c) @ take (m - length (acc @ take ?k c)) (pending ?w'),
                  ReadAtLeast_err m ((acc @ take ?k c) @ pending ?w') (Some (fin (src ?w')))), Orig, w'')"
        "pending w'' = drop (m - length (acc @ take ?k c)) (pending ?w')"
        "fin (src w'') = fin (src ?w')" "close_err (src w'') = close_err (src ?w')"
        by blast
      have unfold: "ReadAtLeast cd m acc Orig w = ReadAtLeast cd m (acc @ take ?k c) Orig ?w'"
        using True Cons by (subst ReadAtLeast.simps) (simp add: read_body_Orig_Cons del: read_body.simps)
      have p: "pending w = c @ concat cs" using Cons by (simp add: pending_def)
      have p': "pending ?w' = drop ?k c @ concat cs" by (simp add: pending_def log_def)
      have e1: "(acc @ take ?k c) @ take (m - length (acc @ take ?k c)) (pending ?w') = acc @ take ?k (pending w)"
        unfolding p p' by (auto simp: min_def)
      have e2: "(acc @ take ?k c) @ pending ?w' = acc @ pending w"
        unfolding p p' by simp
      have e3: "drop (m - length (acc @ take ?k c)) (pending ?w') = drop ?k (pending w)"
        unfolding p p' by (auto simp: min_def)
      have e4: "fin (src ?w') = fin (src w)" "close_err (src ?w') = close_err (src w)"
        by (simp_all add: log_def)
      show ?thesis
        unfolding unfold using w'' unfolding e1 e2 e3 e4 by blast
    qed
  qed
qed

lemma ReadFull_Orig:
  "\<exists>w'. ReadFull cd Orig m w =
           Some ((take m (pending w), ReadAtLeast_err m (pending w) (Some (fin (src w)))), Orig, w')
      \<and> pending w' = drop m (pending w)
      \<and> fin (src w') = fin (src w) \<and> close_err (src w') = close_err (src w)"
  using ReadAtLeast_Orig [of "[]" m cd w] by (simp add: ReadFull_def)

lemma deflate_Orig_ok:
  assumes "Get (Header res) ''Content-Encoding'' = ''deflate''" and "Body res = Orig"
    and "pending w = h0 # h1 # rest"
  shows "\<exists>w'. DecompressBody cd res w = Some (deflate_case res [h0, h1] Orig, w')
            \<and> pending w' = rest \<and> fin (src w') = fin (src w)"
proof -
  from ReadFull_Orig [of cd 2 w] obtain w' where
    rf: "ReadFull cd Orig 2 w =
           Some ((take 2 (pending w), ReadAtLeast_err 2 (pending w) (Some (fin (src w)))), Orig, w')"
    and p: "pending w' = drop 2 (pending w)" and f: "fin (src w') = fin (src w)"
    by blast
  have t: "take 2 (pending w) = [h0, h1]" "drop 2 (pending w) = rest"
    using assms(3) by (simp_all add: numeral_2_eq_2)
  have e: "ReadAtLeast_err 2 (pending w) (Some (fin (src w))) = None"
    using assms(3) by (simp add: ReadAtLeast_err_def)
  have "DecompressBody cd res w = Some (deflate_case res [h0, h1] Orig, w')"
    using assms(1,2) rf unfolding t e by (simp add: DecompressBody_def)
  with p f t show ?thesis by auto
qed

lemma frame_deflate_case:
  "Header (deflate_case res h b) = Header res \<and>
   Uncompressed (deflate_case res h b) = Uncompressed res \<and>
   ContentLength (deflate_case res h b) = ContentLength res"
  by (simp add: deflate_case_def Let_def)

subsection \<open>Dispatch on the encoding\<close>

text \<open>
  C4. When the value of the Content-Encoding header is none of the exact strings
  "gzip", "br", "deflate", "zstd" (the empty string of an absent header included),
  \<open>DecompressBody\<close> returns with the response unchanged: same body, same header
  entries, same \<open>Uncompressed\<close> flag, same \<open>ContentLength\<close>; nothing is read either.
\<close>

theorem unknown_encoding_noop:
  assumes "Get (Header res) ''Content-Encoding'' \<notin> {''gzip'', ''br'', ''deflate'', ''zstd''}"
  shows "DecompressBody cd res w = Some (res, w)"
  using assms by (simp add: DecompressBody_def)

theorem unknown_encoding_noop_witness:
  "Get (Header (demo_response ''identity'')) ''Content-Encoding''
     \<notin> {''gzip'', ''br'', ''deflate'', ''zstd''}
   \<and> DecompressBody demo_codec (demo_response ''identity'') (demo_world [[1, 2, 3]])
       = Some (demo_response ''identity'', demo_world [[1, 2, 3]])"
proof -
  have h: "Get (Header (demo_response ''identity'')) ''Content-Encoding''
     \<notin> {''gzip'', ''br'', ''deflate'', ''zstd''}"
    by (simp add: demo_response_def Get_def)
  show ?thesis
    using h unknown_encoding_noop [OF h, of demo_codec "demo_world [[1, 2, 3]]"] by simp
qed

text \<open>
  C2. When the value of the Content-Encoding header is exactly "gzip", "br" or "zstd",
  \<open>DecompressBody\<close> returns a response in which the Content-Encoding and the
  Content-Length entries are absent, \<open>Uncompressed\<close> is true and \<open>ContentLength\<close>
  is -1.
\<close>

theorem gzip_br_zstd_normalised:
  assumes "Get (Header res) ''Content-Encoding'' \<in> {''gzip'', ''br'', ''zstd''}"
  shows "\<exists>res'. DecompressBody cd res w = Some (res', w)
           \<and> ''Content-Encoding'' \<notin> fst ` set (Header res')
           \<and> ''Content-Length'' \<notin> fst ` set (Header res')
           \<and> Uncompressed res' \<and> ContentLength res' = - 1"
  using assms
  by (auto simp: DecompressBody_def after_switch_def Del_absent Del_absent_other)

theorem gzip_br_zstd_normalised_witness:
  "Get (Header (demo_response ''gzip'')) ''Content-Encoding'' \<in> {''gzip'', ''br'', ''zstd''}
   \<and> (\<exists>res'. DecompressBody demo_codec (demo_response ''gzip'') (demo_world [[1, 2, 3]])
                = Some (res', demo_world [[1, 2, 3]])
           \<and> ''Content-Encoding'' \<notin> fst ` set (Header res')
           \<and> ''Content-Length'' \<notin> fst ` set (Header res')
           \<and> Uncompressed res' \<and> ContentLength res' = - 1)
   \<and> DecompressBody demo_codec (demo_response ''gzip'') (demo_world [[1, 2, 3]])
       = Some (\<lparr>Header = [], Body = GzipReader Orig None None,
                 Uncompressed = True, ContentLength = - 1\<rparr>, demo_world [[1, 2, 3]])"
proof -
  have h: "Get (Header (demo_response ''gzip'')) ''Content-Encoding'' \<in> {''gzip'', ''br'', ''zstd''}"
    by (simp add: demo_response_def Get_def)
  have v: "DecompressBody demo_codec (demo_response ''gzip'') (demo_world [[1, 2, 3]])
       = Some (\<lparr>Header = [], Body = GzipReader Orig None None,
                 Uncompressed = True, ContentLength = - 1\<rparr>, demo_world [[1, 2, 3]])"
    by (simp add: DecompressBody_def demo_response_def Get_def after_switch_def Del_def)
  from h gzip_br_zstd_normalised [OF h, of demo_codec "demo_world [[1, 2, 3]]"] v
  show ?thesis by blast
qed

subsection \<open>The deflate branch\<close>

text \<open>
  C1. For a response whose Content-Encoding is exactly "deflate" and whose body (the
  transport stream) still has at least two bytes \<open>h0\<close>, \<open>h1\<close> to deliver:
  \<open>DecompressBody\<close> rebuilds the stream from the two peeked bytes and the rest of the
  body, and wraps it in the zlib lazy reader when \<open>h0 = 0x78\<close> and
  \<open>h1\<close> is one of 0x9C, 0x01, 0x5E, 0xDA; in the raw-deflate lazy reader when
  \<open>h0 = 0x78\<close> and \<open>h1\<close> is any other byte; and in nothing when \<open>h0\<close> is not 0x78,
  the rebuilt stream being the body then. It returns in all three cases.
\<close>

theorem deflate_disambiguation:
  assumes "Get (Header res) ''Content-Encoding'' = ''deflate''" and "Body res = Orig"
    and "pending w = h0 # h1 # rest"
  shows "\<exists>w'. DecompressBody cd res w =
           Some (res\<lparr>Body :=
                   (if h0 = 0x78 \<and> h1 \<in> {0x9C, 0x01, 0x5E, 0xDA}
                    then ZlibDeflateReader (NopCloserMulti [BytesReader [h0, h1], BodyReader Orig]) None None
                    else if h0 = 0x78
                    then DeflateReader (NopCloserMulti [BytesReader [h0, h1], BodyReader Orig]) None None
                    else NopCloserMulti [BytesReader [h0, h1], BodyReader Orig])\<rparr>, w')"
proof -
  from deflate_Orig_ok [OF assms, of cd] obtain w' where
    "DecompressBody cd res w = Some (deflate_case res [h0, h1] Orig, w')" by blast
  then show ?thesis
    by (auto simp: deflate_case_def zlibMethodDeflate_def zlibLevelDefault_def zlibLevelLow_def
        zlibLevelMedium_def zlibLevelBest_def)
qed

theorem deflate_disambiguation_witness:
  "Get (Header (demo_response ''deflate'')) ''Content-Encoding'' = ''deflate''
   \<and> Body (demo_response ''deflate'') = Orig
   \<and> pending (demo_world [[0x78], [], [0x9C, 1, 2], [3]]) = 0x78 # 0x9C # [1, 2, 3]
   \<and> pending (demo_world [[0x78, 0x00, 7]]) = 0x78 # 0x00 # [7]
   \<and> pending (demo_world [[0x1F, 0x9C], [7]]) = 0x1F # 0x9C # [7]
   \<and> (\<exists>w'. DecompressBody demo_codec (demo_response ''deflate'')
               (demo_world [[0x78], [], [0x9C, 1, 2], [3]]) =
             Some ((demo_response ''deflate'')\<lparr>Body :=
                     ZlibDeflateReader (NopCloserMulti [BytesReader [0x78, 0x9C], BodyReader Orig])
                       None None\<rparr>, w'))
   \<and> (\<exists>w'. DecompressBody demo_codec (demo_response ''deflate'') (demo_world [[0x78, 0x00, 7]]) =
             Some ((demo_response ''deflate'')\<lparr>Body :=
                     DeflateReader (NopCloserMulti [BytesReader [0x78, 0x00], BodyReader Orig])
                       None None\<rparr>, w'))
   \<and> (\<exists>w'. DecompressBody demo_codec (demo_response ''deflate'') (demo_world [[0x1F, 0x9C], [7]]) =
             Some ((demo_response ''deflate'')\<lparr>Body :=
                     NopCloserMulti [BytesReader [0x1F, 0x9C], BodyReader Orig]\<rparr>, w'))"
proof -
  have h1: "Get (Header (demo_response ''deflate'')) ''Content-Encoding'' = ''deflate''"
    by (simp add: demo_response_def Get_def)
  have h2: "Body (demo_response ''deflate'') = Orig"
    by (simp add: demo_response_def)
  have p1: "pending (demo_world [[0x78], [], [0x9C, 1, 2], [3]]) = 0x78 # 0x9C # [1, 2, 3]"
    by (simp add: pending_def demo_world_def)
  have p2: "pending (demo_world [[0x78, 0x00, 7]]) = 0x78 # 0x00 # [7]"
    by (simp add: pending_def demo_world_def)
  have p3: "pending (demo_world [[0x1F, 0x9C], [7]]) = 0x1F # 0x9C # [7]"
    by (simp add: pending_def demo_world_def)
  show ?thesis
    using h1 h2 p1 p2 p3
      deflate_disambiguation [OF h1 h2 p1, of demo_codec]
      deflate_disambiguation [OF h1 h2 p2, of demo_codec]
      deflate_disambiguation [OF h1 h2 p3, of demo_codec]
    by simp
qed

text \<open>
  C3. For a response whose Content-Encoding is "deflate", \<open>DecompressBody\<close> returns
  from inside the deflate case (it does return when the body is the transport stream)
  and the four statements after the switch are not executed: the header entries, the
  \<open>Uncompressed\<close> flag and \<open>ContentLength\<close> of the result are those of the response
  passed in, whether or not a decoder was attached.
\<close>

theorem deflate_skips_normalisation:
  assumes "Get (Header res) ''Content-Encoding'' = ''deflate''"
  shows "(Body res = Orig \<longrightarrow> DecompressBody cd res w \<noteq> None) \<and>
         (\<forall>res' w'. DecompressBody cd res w = Some (res', w') \<longrightarrow>
            Header res' = Header res \<and> Uncompressed res' = Uncompressed res \<and>
            ContentLength res' = ContentLength res)"
proof (intro conjI impI allI)
  assume o: "Body res = Orig"
  from ReadFull_Orig [of cd 2 w] obtain r where "ReadFull cd Orig 2 w = Some r" by blast
  then show "DecompressBody cd res w \<noteq> None"
    using assms o by (auto simp: DecompressBody_def split: prod.splits)
next
  fix res' w' assume d: "DecompressBody cd res w = Some (res', w')"
  then show "Header res' = Header res"
    using assms by (auto simp: DecompressBody_def frame_deflate_case split: option.splits prod.splits if_splits)
  from d show "Uncompressed res' = Uncompressed res"
    using assms by (auto simp: DecompressBody_def frame_deflate_case split: option.splits prod.splits if_splits)
  from d show "ContentLength res' = ContentLength res"
    using assms by (auto simp: DecompressBody_def frame_deflate_case split: option.splits prod.splits if_splits)
qed

theorem deflate_skips_normalisation_witness:
  "Get (Header (demo_response ''deflate'')) ''Content-Encoding'' = ''deflate''
   \<and> Body (demo_response ''deflate'') = Orig
   \<and> DecompressBody demo_codec (demo_response ''deflate'')
        (demo_world [[0x78], [], [0x9C, 1, 2], [3]]) =
      Some ((demo_response ''deflate'')\<lparr>Body :=
              ZlibDeflateReader (NopCloserMulti [BytesReader [0x78, 0x9C], BodyReader Orig])
                None None\<rparr>,
            \<lparr>src = \<lparr>chunks = [[1, 2], [3]], fin = EOF, close_err = None\<rparr>,
              trace = [SrcRead 2, SrcRead 1, SrcRead 1]\<rparr>)
   \<and> DecompressBody demo_codec (demo_response ''deflate'')
        (demo_world [[0x78], [], [0x9C, 1, 2], [3]]) \<noteq> None
   \<and> Header ((demo_response ''deflate'')\<lparr>Body :=
              ZlibDeflateReader (NopCloserMulti [BytesReader [0x78, 0x9C], BodyReader Orig])
                None None\<rparr>)
       = [(''Content-Encoding'', ''deflate''), (''Content-Length'', ''6'')]"
proof -
  let ?w = "demo_world [[0x78], [], [0x9C, 1, 2], [3]]"
  let ?res' = "(demo_response ''deflate'')\<lparr>Body :=
              ZlibDeflateReader (NopCloserMulti [BytesReader [0x78, 0x9C], BodyReader Orig])
                None None\<rparr>"
  have h: "Get (Header (demo_response ''deflate'')) ''Content-Encoding'' = ''deflate''"
    by (simp add: demo_response_def Get_def)
  have o: "Body (demo_response ''deflate'') = Orig"
    by (simp add: demo_response_def)
  have v: "DecompressBody demo_codec (demo_response ''deflate'') ?w =
      Some (?res', \<lparr>src = \<lparr>chunks = [[1, 2], [3]], fin = EOF, close_err = None\<rparr>,
              trace = [SrcRead 2, SrcRead 1, SrcRead 1]\<rparr>)"
    by (simp add: DecompressBody_def demo_response_def demo_world_def Get_def ReadFull_def
        ReadAtLeast.simps source_Read_def log_def ReadAtLeast_err_def deflate_case_def
        zlibMethodDeflate_def zlibLevelDefault_def zlibLevelLow_def zlibLevelMedium_def
        zlibLevelBest_def)
  note t = deflate_skips_normalisation [OF h, of demo_codec ?w]
  from t o have n: "DecompressBody demo_codec (demo_response ''deflate'') ?w \<noteq> None"
    by blast
  from t v have "Header ?res' = Header (demo_response ''deflate'')"
    by blast
  then have f: "Header ?res' = [(''Content-Encoding'', ''deflate''), (''Content-Length'', ''6'')]"
    by (simp add: demo_response_def)
  from h o v n f show ?thesis by (intro conjI)
qed

text \<open>
  C8. In the deflate branch, when the body (the transport stream) has fewer than two
  bytes left, \<open>io.ReadFull\<close> returns an error \<open>e\<close> (EOF, unexpected EOF or the
  stream's I/O error); \<open>DecompressBody\<close> drops \<open>e\<close> and returns the response as it
  was: the body is still the transport stream with no decoder attached, and the headers,
  \<open>Uncompressed\<close> and \<open>ContentLength\<close> are unchanged. The bytes read by the peek
  are gone from the stream.
\<close>

theorem deflate_peek_failure:
  assumes "Get (Header res) ''Content-Encoding'' = ''deflate''" and "Body res = Orig"
    and "length (pending w) < 2"
  shows "\<exists>e w'. ReadFull cd Orig 2 w = Some ((pending w, Some e), Orig, w')
            \<and> DecompressBody cd res w = Some (res, w') \<and> pending w' = []"
proof -
  from ReadFull_Orig [of cd 2 w] obtain w' where
    rf: "ReadFull cd Orig 2 w =
           Some ((take 2 (pending w), ReadAtLeast_err 2 (pending w) (Some (fin (src w)))), Orig, w')"
    and p: "pending w' = drop 2 (pending w)"
    by blast
  have t: "take 2 (pending w) = pending w" "drop 2 (pending w) = []"
    using assms(3) by simp_all
  have "\<exists>e. ReadAtLeast_err 2 (pending w) (Some (fin (src w))) = Some e"
    using assms(3) by (simp add: ReadAtLeast_err_def)
  then obtain e where e: "ReadAtLeast_err 2 (pending w) (Some (fin (src w))) = Some e" ..
  have "res\<lparr>Body := Orig\<rparr> = res" using assms(2) by simp
  then have "DecompressBody cd res w = Some (res, w')"
    using assms(1,2) rf unfolding t e by (simp add: DecompressBody_def)
  with rf p t e show ?thesis by auto
qed

theorem deflate_peek_failure_witness:
  "Get (Header (demo_response ''deflate'')) ''Content-Encoding'' = ''deflate''
   \<and> Body (demo_response ''deflate'') = Orig
   \<and> length (pending (demo_world [[], [0x78]])) < 2
   \<and> (\<exists>e w'. ReadFull demo_codec Orig 2 (demo_world [[], [0x78]])
                 = Some ((pending (demo_world [[], [0x78]]), Some e), Orig, w')
          \<and> DecompressBody demo_codec (demo_response ''deflate'') (demo_world [[], [0x78]])
              = Some (demo_response ''deflate'', w')
          \<and> pending w' = [])"
proof -
  have h1: "Get (Header (demo_response ''deflate'')) ''Content-Encoding'' = ''deflate''"
    by (simp add: demo_response_def Get_def)
  have h2: "Body (demo_response ''deflate'') = Orig"
    by (simp add: demo_response_def)
  have h3: "length (pending (demo_world [[], [0x78]])) < 2"
    by (simp add: pending_def demo_world_def)
  from h1 h2 h3 deflate_peek_failure [OF h1 h2 h3, of demo_codec]
  show ?thesis by (intro conjI)
qed

subsection \<open>The lazy readers as state machines\<close>

lemma constructions_log [simp]:
  "constructions (log ev w) = (if is_NewDecoder ev then Suc (constructions w) else constructions w)"
  by (simp add: constructions_def)

lemma constructions_src_update [simp]: "constructions (w\<lparr>src := s\<rparr>) = constructions w"
  by (simp add: constructions_def)

lemma gzipReader_Read_state:
  "gzipReader_Read cd b r err k w = (res, x', w') \<Longrightarrow>
   is_lazy x' \<and> settled x' \<and>
   constructions w' = (if r = None \<and> err = None then Suc (constructions w) else constructions w)"
  by (auto simp: gzipReader_Read_def split: option.splits prod.splits sum.splits)

lemma brReader_Read_state:
  "brReader_Read cd b r err k w = (res, x', w') \<Longrightarrow>
   is_lazy x' \<and> settled x' \<and>
   constructions w' = (if r = None \<and> err = None then Suc (constructions w) else constructions w)"
  by (auto simp: brReader_Read_def split: option.splits prod.splits)

lemma zlibDeflateReader_Read_state:
  "zlibDeflateReader_Read cd b r err k w = (res, x', w') \<Longrightarrow>
   is_lazy x' \<and> settled x' \<and>
   constructions w' = (if r = None \<and> err = None then Suc (constructions w) else constructions w)"
  by (auto simp: zlibDeflateReader_Read_def split: option.splits prod.splits sum.splits)

lemma deflateReader_Read_state:
  "deflateReader_Read cd b r err k w = (res, x', w') \<Longrightarrow>
   is_lazy x' \<and> settled x' \<and>
   constructions w' = (if r = None \<and> err = None then Suc (constructions w) else constructions w)"
  by (auto simp: deflateReader_Read_def split: option.splits prod.splits)

lemma zstdReader_Read_state:
  "zstdReader_Read cd b r err k w = (res, x', w') \<Longrightarrow>
   is_lazy x' \<and> settled x' \<and>
   constructions w' = (if r = None \<and> err = None then Suc (constructions w) else constructions w)"
  by (auto simp: zstdReader_Read_def split: option.splits prod.splits sum.splits)

lemma read_lazy_state:
  assumes "is_lazy x" and "read_body cd x k w = (res, x', w')"
  shows "is_lazy x' \<and> settled x' \<and>
         constructions w' = (if settled x then constructions w else Suc (constructions w))"
proof (cases x)
  case (GzipReader b r err)
  with assms(2) gzipReader_Read_state [of cd b r err k w res x' w'] show ?thesis by auto
next
  case (BrReader b r err)
  with assms(2) brReader_Read_state [of cd b r err k w res x' w'] show ?thesis by auto
next
  case (ZlibDeflateReader b r err)
  with assms(2) zlibDeflateReader_Read_state [of cd b r err k w res x' w'] show ?thesis by auto
next
  case (DeflateReader b r err)
  with assms(2) deflateReader_Read_state [of cd b r err k w res x' w'] show ?thesis by auto
next
  case (ZstdReader b r err)
  with assms(2) zstdReader_Read_state [of cd b r err k w res x' w'] show ?thesis by auto
qed (use assms(1) in simp_all)

lemma close_body_constructions:
  "close_body cd x w = Inr (e, x', w') \<Longrightarrow> constructions w' = constructions w"
proof (induction cd x w arbitrary: e x' w' rule: close_body.induct)
  case (1 cd w)
  then show ?case by auto
next
  case (2 cd rds w)
  then show ?case by auto
next
  case (3 cd b r err w)
  then show ?case by (auto split: sum.splits)
next
  case (4 cd b r err w)
  then show ?case by (auto split: sum.splits)
next
  case (5 cd b r err w)
  then show ?case by (auto split: option.splits prod.splits)
next
  case (6 cd b r err w)
  then show ?case by (auto split: option.splits prod.splits)
next
  case (7 cd b r err w)
  then show ?case by (auto split: sum.splits)
qed

lemma close_lazy_state:
  assumes "is_lazy x" and "close_body cd x w = Inr (e, x', w')"
  shows "is_lazy x' \<and> settled x' = settled x"
  using assms by (cases x) (auto split: sum.splits option.splits prod.splits)

lemma run_settled:
  "is_lazy x \<Longrightarrow> settled x \<Longrightarrow> constructions (snd (run cd ops (x, w))) = constructions w"
proof (induction ops arbitrary: x w)
  case Nil
  then show ?case by simp
next
  case (Cons a ops)
  show ?case
  proof (cases a)
    case (Read k)
    obtain res x' w' where r: "read_body cd x k w = (res, x', w')"
      by (cases "read_body cd x k w") auto
    from read_lazy_state [OF Cons.prems(1) r] Cons.prems(2)
    have "is_lazy x'" "settled x'" "constructions w' = constructions w" by auto
    with Cons.IH [of x' w'] Read r show ?thesis by simp
  next
    case Close
    show ?thesis
    proof (cases "close_body cd x w")
      case (Inl p)
      with Close show ?thesis by simp
    next
      case (Inr t)
      obtain e x' w' where t: "t = (e, x', w')" by (cases t) auto
      from close_lazy_state [OF Cons.prems(1) Inr [unfolded t]] Cons.prems(2)
        close_body_constructions [OF Inr [unfolded t]]
      have "is_lazy x'" "settled x'" "constructions w' = constructions w" by auto
      with Cons.IH [of x' w'] Close Inr t show ?thesis by simp
    qed
  qed
qed

lemma run_first_Read:
  assumes "is_lazy x" and "\<not> settled x"
  shows "constructions (snd (run cd (Read k # ops) (x, w))) = Suc (constructions w)"
proof -
  obtain res x' w' where r: "read_body cd x k w = (res, x', w')"
    by (cases "read_body cd x k w") auto
  from read_lazy_state [OF assms(1) r] assms(2)
  have "is_lazy x'" "settled x'" "constructions w' = Suc (constructions w)" by auto
  with run_settled [of x' cd ops w'] r show ?thesis by simp
qed

lemma run_bound:
  "is_lazy x \<Longrightarrow> constructions (snd (run cd ops (x, w))) \<le> Suc (constructions w)"
proof (induction ops arbitrary: x w)
  case Nil
  then show ?case by simp
next
  case (Cons a ops)
  show ?case
  proof (cases a)
    case (Read k)
    show ?thesis
    proof (cases "settled x")
      case True
      from run_settled [OF Cons.prems True, of cd "a # ops" w] show ?thesis by simp
    next
      case False
      from run_first_Read [OF Cons.prems False, of cd k ops w] Read show ?thesis by simp
    qed
  next
    case Close
    show ?thesis
    proof (cases "close_body cd x w")
      case (Inl p)
      with Close show ?thesis by simp
    next
      case (Inr t)
      obtain e x' w' where t: "t = (e, x', w')" by (cases t) auto
      from close_lazy_state [OF Cons.prems Inr [unfolded t]]
        close_body_constructions [OF Inr [unfolded t]]
      have "is_lazy x'" "constructions w' = constructions w" by auto
      with Cons.IH [of x' w'] Close Inr t show ?thesis by simp
    qed
  qed
qed

lemma is_lazy_lazy [simp]: "is_lazy (lazy kd b r err)"
  by (cases kd) simp_all

lemma settled_lazy [simp]: "settled (lazy kd b r err) = (\<not> (r = None \<and> err = None))"
  by (cases kd) simp_all

lemma close_fresh:
  "close_body cd (lazy kd b None None) w = Inl p \<or>
   (\<exists>e b' w'. close_body cd (lazy kd b None None) w = Inr (e, lazy kd b' None None, w')
       \<and> constructions w' = constructions w)"
proof (cases "close_body cd (lazy kd b None None) w")
  case (Inl q)
  then show ?thesis by (cases p; cases q) simp
next
  case (Inr t)
  obtain e x' w' where t: "t = (e, x', w')" by (cases t) auto
  from Inr t close_body_constructions [of cd "lazy kd b None None" w e x' w']
  have c: "constructions w' = constructions w" by simp
  from Inr t have "\<exists>b'. x' = lazy kd b' None None"
    by (cases kd) (auto split: sum.splits)
  with Inr t c show ?thesis by auto
qed

lemma run_Close_only:
  "\<exists>b' w'. run cd (replicate n Close) (lazy kd b None None, w) = (lazy kd b' None None, w')
      \<and> constructions w' = constructions w"
proof (induction n arbitrary: b w)
  case 0
  show ?case by (intro exI [of _ b] exI [of _ w]) simp
next
  case (Suc n)
  from close_fresh [of cd kd b w NilPointerDereference]
  show ?case
  proof
    assume "close_body cd (lazy kd b None None) w = Inl NilPointerDereference"
    then show ?thesis by (intro exI [of _ b] exI [of _ w]) simp
  next
    assume "\<exists>e b' w'. close_body cd (lazy kd b None None) w = Inr (e, lazy kd b' None None, w')
       \<and> constructions w' = constructions w"
    then obtain e b' w' where
      c: "close_body cd (lazy kd b None None) w = Inr (e, lazy kd b' None None, w')"
      and n: "constructions w' = constructions w" by blast
    from Suc.IH [of b' w'] c n show ?thesis by simp
  qed
qed

lemma read_fresh_fail:
  assumes "construct cd kd (b, src w) = (Inl e, b', s')"
  shows "read_body cd (lazy kd b None None) k w =
           (([], Some e), lazy kd b' None (Some e), log (NewDecoder kd) (w\<lparr>src := s'\<rparr>))"
  using assms
  by (cases kd)
     (auto simp: gzipReader_Read_def brReader_Read_def zlibDeflateReader_Read_def
        deflateReader_Read_def zstdReader_Read_def split: prod.splits)

lemma read_sticky:
  "read_body cd (lazy kd b r (Some e)) k w = (([], Some e), lazy kd b r (Some e), w)"
  by (cases kd)
     (simp_all add: gzipReader_Read_def brReader_Read_def zlibDeflateReader_Read_def
        deflateReader_Read_def zstdReader_Read_def)

lemma reads_sticky:
  "reads cd (lazy kd b r (Some e)) ks w =
     (replicate (length ks) ([], Some e), lazy kd b r (Some e), w)"
  by (induction ks) (simp_all add: read_sticky del: read_body.simps)

text \<open>
  C5. For every lazy reader: when the decoder's constructor fails with error \<open>e\<close> in
  the first \<open>Read\<close>, that call returns \<open>(0, e)\<close> and so does every later \<open>Read\<close>;
  the later calls change nothing, so the constructor is called once only (the trace
  holds one \<open>NewDecoder\<close> event). The brotli and raw-deflate constructors have no
  error result, so the premise concerns the gzip, zlib and zstd readers.
\<close>

theorem construction_error_sticky:
  assumes "construct cd kd (b, src w) = (Inl e, b', s')"
  shows "reads cd (lazy kd b None None) (k # ks) w =
           (replicate (Suc (length ks)) ([], Some e), lazy kd b' None (Some e),
            log (NewDecoder kd) (w\<lparr>src := s'\<rparr>))"
  using read_fresh_fail [OF assms] by (simp add: reads_sticky del: read_body.simps)

theorem construction_error_sticky_witness:
  "construct demo_codec Gzip (Orig, src (demo_world [[1, 2, 3]]))
     = (Inl (ErrOther 1), Orig, src (demo_world [[1, 2, 3]]))
   \<and> reads demo_codec (GzipReader Orig None None) [4, 4, 0] (demo_world [[1, 2, 3]]) =
       ([([], Some (ErrOther 1)), ([], Some (ErrOther 1)), ([], Some (ErrOther 1))],
        GzipReader Orig None (Some (ErrOther 1)),
        \<lparr>src = \<lparr>chunks = [[1, 2, 3]], fin = EOF, close_err = None\<rparr>, trace = [NewDecoder Gzip]\<rparr>)"
proof -
  have h: "construct demo_codec Gzip (Orig, src (demo_world [[1, 2, 3]]))
     = (Inl (ErrOther 1), Orig, src (demo_world [[1, 2, 3]]))"
    by (simp add: demo_codec_def)
  from h construction_error_sticky [OF h, of 4 "[4, 0]"]
  show ?thesis by (simp add: demo_world_def log_def)
qed

text \<open>
  C6. For every lazy reader, starting from the state in which \<open>DecompressBody\<close> creates
  it: whatever sequence of \<open>Read\<close> and \<open>Close\<close> calls follows, at most one decoder
  is constructed; \<open>Close\<close> calls before the first \<open>Read\<close> construct none and leave
  \<open>r\<close> and \<open>err\<close> nil; the first \<open>Read\<close> constructs exactly one and no later call
  constructs another. Attaching the reader in the gzip, br and zstd cases of
  \<open>DecompressBody\<close> always returns and leaves the transport stream and the trace as they
  were: nothing is read.
\<close>

theorem decoder_constructed_once:
  "constructions (snd (run cd ops (lazy kd b None None, w))) \<le> Suc (constructions w)
   \<and> (\<exists>b' w'. run cd (replicate n Close) (lazy kd b None None, w) = (lazy kd b' None None, w')
          \<and> constructions w' = constructions w)
   \<and> constructions (snd (run cd (Read k # ops) (lazy kd b None None, w))) = Suc (constructions w)
   \<and> (Get (Header res) ''Content-Encoding'' = ''gzip'' \<longrightarrow>
        DecompressBody cd res w = Some (after_switch (res\<lparr>Body := lazy Gzip (Body res) None None\<rparr>), w))
   \<and> (Get (Header res) ''Content-Encoding'' = ''br'' \<longrightarrow>
        DecompressBody cd res w = Some (after_switch (res\<lparr>Body := lazy Brotli (Body res) None None\<rparr>), w))
   \<and> (Get (Header res) ''Content-Encoding'' = ''zstd'' \<longrightarrow>
        DecompressBody cd res w = Some (after_switch (res\<lparr>Body := lazy Zstd (Body res) None None\<rparr>), w))"
proof (intro conjI)
  show "constructions (snd (run cd ops (lazy kd b None None, w))) \<le> Suc (constructions w)"
    by (rule run_bound) simp
  show "\<exists>b' w'. run cd (replicate n Close) (lazy kd b None None, w) = (lazy kd b' None None, w')
          \<and> constructions w' = constructions w"
    by (rule run_Close_only)
  show "constructions (snd (run cd (Read k # ops) (lazy kd b None None, w))) = Suc (constructions w)"
    by (rule run_first_Read) simp_all
qed (simp_all add: DecompressBody_def)

theorem decoder_constructed_once_witness:
  "constructions (snd (run demo_codec [Close, Read 4, Read 0, Close, Read 4]
                        (lazy Brotli Orig None None, demo_world [[1, 2, 3]])))
     \<le> Suc (constructions (demo_world [[1, 2, 3]]))
   \<and> (\<exists>b' w'. run demo_codec (replicate 2 Close) (lazy Brotli Orig None None, demo_world [[1, 2, 3]])
                  = (lazy Brotli b' None None, w')
          \<and> constructions w' = constructions (demo_world [[1, 2, 3]]))
   \<and> constructions (snd (run demo_codec (Read 4 # [Read 0, Close, Read 4])
                        (lazy Brotli Orig None None, demo_world [[1, 2, 3]])))
     = Suc (constructions (demo_world [[1, 2, 3]]))
   \<and> Get (Header (demo_response ''br'')) ''Content-Encoding'' = ''br''
   \<and> DecompressBody demo_codec (demo_response ''br'') (demo_world [[1, 2, 3]])
       = Some (after_switch ((demo_response ''br'')
                 \<lparr>Body := lazy Brotli (Body (demo_response ''br'')) None None\<rparr>),
               demo_world [[1, 2, 3]])
   \<and> constructions (demo_world [[1, 2, 3]]) = 0
   \<and> run demo_codec [Close, Read 4, Read 0, Close, Read 4]
         (lazy Brotli Orig None None, demo_world [[1, 2, 3]])
      = (BrReader Orig (Some 3) None,
         \<lparr>src = \<lparr>chunks = [[1, 2, 3]], fin = EOF, close_err = None\<rparr>,
           trace = [SrcClose, NewDecoder Brotli, DecoderRead 4, DecoderRead 0, SrcClose,
                    DecoderRead 4]\<rparr>)"
proof -
  have c: "constructions (demo_world [[1, 2, 3]]) = 0"
    by (simp add: constructions_def demo_world_def)
  have v: "run demo_codec [Close, Read 4, Read 0, Close, Read 4]
         (lazy Brotli Orig None None, demo_world [[1, 2, 3]])
      = (BrReader Orig (Some 3) None,
         \<lparr>src = \<lparr>chunks = [[1, 2, 3]], fin = EOF, close_err = None\<rparr>,
           trace = [SrcClose, NewDecoder Brotli, DecoderRead 4, DecoderRead 0, SrcClose,
                    DecoderRead 4]\<rparr>)"
    by (simp add: demo_codec_def demo_world_def brReader_Read_def log_def)
  have h: "Get (Header (demo_response ''br'')) ''Content-Encoding'' = ''br''"
    by (simp add: demo_response_def Get_def)
  note t1 = decoder_constructed_once [where cd = demo_codec and kd = Brotli and b = Orig
      and w = "demo_world [[1, 2, 3]]" and n = 2 and k = 4 and res = "demo_response ''br''"
      and ops = "[Close, Read 4, Read 0, Close, Read 4]"]
  note t2 = decoder_constructed_once [where cd = demo_codec and kd = Brotli and b = Orig
      and w = "demo_world [[1, 2, 3]]" and n = 2 and k = 4 and res = "demo_response ''br''"
      and ops = "[Read 0, Close, Read 4]"]
  from t1 t2 h c v show ?thesis by blast
qed

subsection \<open>Close\<close>

text \<open>
  C9. \<open>Close\<close> on a gzip, brotli or zstd lazy reader closes the original source stream
  held in \<open>body\<close> and returns its result, whatever \<open>r\<close> and \<open>err\<close> are: the only call
  made is the stream's \<open>Close\<close>, never the decoder's. \<open>Close\<close> on the zlib and
  raw-deflate lazy readers with a constructed decoder \<open>d\<close> calls the decoder's \<open>Close\<close>
  and returns its result: the only call made is the decoder's \<open>Close\<close>, not the
  stream's.
\<close>

theorem close_targets:
  "close_body cd (GzipReader Orig r err) w
     = Inr (close_err (src w), GzipReader Orig r err, log SrcClose w)
   \<and> close_body cd (BrReader Orig r err) w
     = Inr (close_err (src w), BrReader Orig r err, log SrcClose w)
   \<and> close_body cd (ZstdReader Orig r err) w
     = Inr (close_err (src w), ZstdReader Orig r err, log SrcClose w)
   \<and> (\<exists>e d' b' s'. dec_Close cd d (b, src w) = (e, d', b', s')
         \<and> close_body cd (ZlibDeflateReader b (Some d) err) w
             = Inr (e, ZlibDeflateReader b' (Some d') err, log DecoderClose (w\<lparr>src := s'\<rparr>)))
   \<and> (\<exists>e d' b' s'. dec_Close cd d (b, src w) = (e, d', b', s')
         \<and> close_body cd (DeflateReader b (Some d) err) w
             = Inr (e, DeflateReader b' (Some d') err, log DecoderClose (w\<lparr>src := s'\<rparr>)))"
  by (cases "dec_Close cd d (b, src w)") simp

theorem close_targets_witness:
  "close_body demo_codec (GzipReader Orig (Some 5) None) (demo_world [[1, 2, 3]])
     = Inr (None, GzipReader Orig (Some 5) None,
            \<lparr>src = \<lparr>chunks = [[1, 2, 3]], fin = EOF, close_err = None\<rparr>, trace = [SrcClose]\<rparr>)
   \<and> close_body demo_codec
        (ZlibDeflateReader (NopCloserMulti [BytesReader [], BodyReader Orig]) (Some 5) None)
        (demo_world [[1, 2, 3]])
     = Inr (None, ZlibDeflateReader (NopCloserMulti [BytesReader [], BodyReader Orig]) (Some 5) None,
            \<lparr>src = \<lparr>chunks = [[1, 2, 3]], fin = EOF, close_err = None\<rparr>, trace = [DecoderClose]\<rparr>)"
proof -
  note t = close_targets [where cd = demo_codec and r = "Some 5" and err = None
      and w = "demo_world [[1, 2, 3]]" and d = 5
      and b = "NopCloserMulti [BytesReader [], BodyReader Orig]"]
  have d: "dec_Close demo_codec 5 (NopCloserMulti [BytesReader [], BodyReader Orig], src (demo_world [[1, 2, 3]]))
      = (None, 5, NopCloserMulti [BytesReader [], BodyReader Orig], src (demo_world [[1, 2, 3]]))"
    by (simp add: demo_codec_def)
  from t have "close_body demo_codec (GzipReader Orig (Some 5) None) (demo_world [[1, 2, 3]])
     = Inr (close_err (src (demo_world [[1, 2, 3]])), GzipReader Orig (Some 5) None,
            log SrcClose (demo_world [[1, 2, 3]]))"
    by (rule conjunct1)
  moreover from t d have "close_body demo_codec
        (ZlibDeflateReader (NopCloserMulti [BytesReader [], BodyReader Orig]) (Some 5) None)
        (demo_world [[1, 2, 3]])
     = Inr (None, ZlibDeflateReader (NopCloserMulti [BytesReader [], BodyReader Orig]) (Some 5) None,
            log DecoderClose ((demo_world [[1, 2, 3]])\<lparr>src := src (demo_world [[1, 2, 3]])\<rparr>))"
    by auto
  ultimately show ?thesis by (simp add: demo_world_def log_def)
qed

text \<open>
  C10. \<open>Close\<close> on a zlib or raw-deflate lazy reader whose \<open>r\<close> is still nil panics with
  a nil dereference, whatever the body, the \<open>err\<close> field and the decoder library are.
  That state is reached: it is the state in which \<open>DecompressBody\<close> leaves the body of a
  deflate response that starts with 0x78, and the state after a first \<open>Read\<close> whose
  constructor failed. \<open>Close\<close> on a gzip, brotli or zstd lazy reader over the transport
  stream returns in every state of \<open>r\<close> and \<open>err\<close>.
\<close>

theorem deflate_close_before_read_panics:
  "close_body cd (ZlibDeflateReader b None err) w0 = Inl NilPointerDereference
   \<and> close_body cd (DeflateReader b None err) w0 = Inl NilPointerDereference
   \<and> (Get (Header res) ''Content-Encoding'' = ''deflate'' \<and> Body res = Orig
        \<and> pending w = 0x78 # h1 # rest \<longrightarrow>
        (\<exists>res' w'. DecompressBody cd res w = Some (res', w')
            \<and> close_body cd (Body res') w' = Inl NilPointerDereference))
   \<and> (zlib_NewReader cd (b, src w0) = (Inl e, b', s') \<longrightarrow>
        (\<exists>x' w'. read_body cd (ZlibDeflateReader b None None) k w0 = (([], Some e), x', w')
            \<and> close_body cd x' w' = Inl NilPointerDereference))
   \<and> (\<exists>res. close_body cd (GzipReader Orig r err) w0 = Inr res)
   \<and> (\<exists>res. close_body cd (BrReader Orig r err) w0 = Inr res)
   \<and> (\<exists>res. close_body cd (ZstdReader Orig r err) w0 = Inr res)"
proof -
  have reached: "\<exists>res' w'. DecompressBody cd res w = Some (res', w')
            \<and> close_body cd (Body res') w' = Inl NilPointerDereference"
    if h: "Get (Header res) ''Content-Encoding'' = ''deflate''" "Body res = Orig"
      "pending w = 0x78 # h1 # rest"
  proof -
    from deflate_Orig_ok [OF h, of cd] obtain w' where
      d: "DecompressBody cd res w = Some (deflate_case res [0x78, h1] Orig, w')" by blast
    have "close_body cd (Body (deflate_case res [0x78, h1] Orig)) w' = Inl NilPointerDereference"
      by (simp add: deflate_case_def Let_def zlibMethodDeflate_def)
    with d show ?thesis by blast
  qed
  have failed: "\<exists>x' w'. read_body cd (ZlibDeflateReader b None None) k w0 = (([], Some e), x', w')
            \<and> close_body cd x' w' = Inl NilPointerDereference"
    if "zlib_NewReader cd (b, src w0) = (Inl e, b', s')"
    using that by (simp add: zlibDeflateReader_Read_def)
  from reached failed show ?thesis by simp
qed

theorem deflate_close_before_read_panics_witness:
  "close_body demo_codec (ZlibDeflateReader Orig None None) (demo_world [[1]])
     = Inl NilPointerDereference
   \<and> close_body demo_codec (DeflateReader Orig None None) (demo_world [[1]])
     = Inl NilPointerDereference
   \<and> Get (Header (demo_response ''deflate'')) ''Content-Encoding'' = ''deflate''
   \<and> Body (demo_response ''deflate'') = Orig
   \<and> pending (demo_world [[0x78, 0x9C], [7]]) = 0x78 # 0x9C # [7]
   \<and> (\<exists>res' w'. DecompressBody demo_codec (demo_response ''deflate'')
                    (demo_world [[0x78, 0x9C], [7]]) = Some (res', w')
            \<and> close_body demo_codec (Body res') w' = Inl NilPointerDereference)
   \<and> zlib_NewReader (demo_codec\<lparr>zlib_NewReader := (\<lambda>low. (Inl (ErrOther 3), low))\<rparr>)
        (Orig, src (demo_world [[1]])) = (Inl (ErrOther 3), Orig, src (demo_world [[1]]))
   \<and> (\<exists>x' w'. read_body (demo_codec\<lparr>zlib_NewReader := (\<lambda>low. (Inl (ErrOther 3), low))\<rparr>)
                  (ZlibDeflateReader Orig None None) 4 (demo_world [[1]])
                = (([], Some (ErrOther 3)), x', w')
            \<and> close_body (demo_codec\<lparr>zlib_NewReader := (\<lambda>low. (Inl (ErrOther 3), low))\<rparr>) x' w'
                = Inl NilPointerDereference)
   \<and> (\<exists>res. close_body demo_codec (GzipReader Orig None None) (demo_world [[1]]) = Inr res)"
proof -
  let ?cd = "demo_codec\<lparr>zlib_NewReader := (\<lambda>low. (Inl (ErrOther 3), low))\<rparr>"
  have h1: "Get (Header (demo_response ''deflate'')) ''Content-Encoding'' = ''deflate''"
    by (simp add: demo_response_def Get_def)
  have h2: "Body (demo_response ''deflate'') = Orig"
    by (simp add: demo_response_def)
  have h3: "pending (demo_world [[0x78, 0x9C], [7]]) = 0x78 # 0x9C # [7]"
    by (simp add: pending_def demo_world_def)
  have h4: "zlib_NewReader ?cd (Orig, src (demo_world [[1]]))
              = (Inl (ErrOther 3), Orig, src (demo_world [[1]]))"
    by simp
  note t1 = deflate_close_before_read_panics [where cd = demo_codec and b = Orig and err = None
      and r = None and ?w0.0 = "demo_world [[1]]" and res = "demo_response ''deflate''"
      and w = "demo_world [[0x78, 0x9C], [7]]" and ?h1.0 = "0x9C" and rest = "[7]"]
  note t2 = deflate_close_before_read_panics [where cd = ?cd and b = Orig and err = None
      and ?w0.0 = "demo_world [[1]]" and e = "ErrOther 3" and b' = Orig
      and s' = "src (demo_world [[1]])" and k = 4]
  from h1 h2 h3 h4 t1 t2 show ?thesis by blast
qed

subsection \<open>The rebuilt deflate stream\<close>

lemma read_to_end_Orig:
  "0 < k \<Longrightarrow> read_to_end cd k acc Orig w = Some (acc @ pending w, fin (src w))"
proof (induction "length (pending w) + length (chunks (src w))" arbitrary: acc w rule: less_induct)
  case less
  show ?case
  proof (cases "chunks (src w)")
    case Nil
    then show ?thesis
      by (subst read_to_end.simps) (simp add: read_body_Orig_nil pending_def del: read_body.simps)
  next
    case (Cons c cs)
    let ?w' = "log (SrcRead k) (w\<lparr>src := (src w)\<lparr>chunks := (if drop k c = [] then cs else drop k c # cs)\<rparr>\<rparr>)"
    have smaller: "length (pending ?w') + length (chunks (src ?w')) < length (pending w) + length (chunks (src w))"
      using less.prems Cons by (auto simp: pending_def)
    have unfold: "read_to_end cd k acc Orig w = read_to_end cd k (acc @ take k c) Orig ?w'"
      using Cons by (subst read_to_end.simps) (simp add: read_body_Orig_Cons del: read_body.simps)
    have p: "take k c @ pending ?w' = pending w"
      using Cons by (simp add: pending_def)
    have "read_to_end cd k (acc @ take k c) Orig ?w' = Some ((acc @ take k c) @ pending ?w', fin (src ?w'))"
      by (rule less.hyps [OF smaller less.prems])
    then show ?thesis unfolding unfold using p by simp
  qed
qed

lemma read_multi_body_nil:
  "chunks (src w) = [] \<Longrightarrow>
   \<exists>rds'. read_body cd (NopCloserMulti [BodyReader Orig]) k w
      = (([], Some (fin (src w))), NopCloserMulti rds', log (SrcRead k) w)"
  by (simp add: source_Read_def)

lemma read_multi_body_Cons:
  "chunks (src w) = c # cs \<Longrightarrow>
   read_body cd (NopCloserMulti [BodyReader Orig]) k w =
     ((take k c, None), NopCloserMulti [BodyReader Orig],
      log (SrcRead k) (w\<lparr>src := (src w)\<lparr>chunks := (if drop k c = [] then cs else drop k c # cs)\<rparr>\<rparr>))"
  by (simp add: source_Read_def)

lemma read_to_end_multi_body:
  "0 < k \<Longrightarrow>
   read_to_end cd k acc (NopCloserMulti [BodyReader Orig]) w = Some (acc @ pending w, fin (src w))"
proof (induction "length (pending w) + length (chunks (src w))" arbitrary: acc w rule: less_induct)
  case less
  show ?case
  proof (cases "chunks (src w)")
    case Nil
    from read_multi_body_nil [OF Nil, of cd k] obtain rds' where
      "read_body cd (NopCloserMulti [BodyReader Orig]) k w
        = (([], Some (fin (src w))), NopCloserMulti rds', log (SrcRead k) w)" by blast
    then show ?thesis using Nil
      by (subst read_to_end.simps) (simp add: pending_def del: read_body.simps)
  next
    case (Cons c cs)
    let ?w' = "log (SrcRead k) (w\<lparr>src := (src w)\<lparr>chunks := (if drop k c = [] then cs else drop k c # cs)\<rparr>\<rparr>)"
    have smaller: "length (pending ?w') + length (chunks (src ?w')) < length (pending w) + length (chunks (src w))"
      using less.prems Cons by (auto simp: pending_def)
    have unfold: "read_to_end cd k acc (NopCloserMulti [BodyReader Orig]) w
          = read_to_end cd k (acc @ take k c) (NopCloserMulti [BodyReader Orig]) ?w'"
      using Cons by (subst read_to_end.simps) (simp add: read_multi_body_Cons del: read_body.simps)
    have p: "take k c @ pending ?w' = pending w"
      using Cons by (simp add: pending_def)
    have "read_to_end cd k (acc @ take k c) (NopCloserMulti [BodyReader Orig]) ?w'
            = Some ((acc @ take k c) @ pending ?w', fin (src ?w'))"
      by (rule less.hyps [OF smaller less.prems])
    then show ?thesis unfolding unfold using p by simp
  qed
qed

lemma read_multi_header_nil:
  "read_body cd (NopCloserMulti [BytesReader [], BodyReader Orig]) k w
     = read_body cd (NopCloserMulti [BodyReader Orig]) k w"
  by (simp add: bytesReader_Read_def)

lemma read_multi_header_Cons:
  "pre \<noteq> [] \<Longrightarrow>
   read_body cd (NopCloserMulti [BytesReader pre, BodyReader Orig]) k w
     = ((take k pre, None), NopCloserMulti [BytesReader (drop k pre), BodyReader Orig], w)"
  by (simp add: bytesReader_Read_def)

lemma read_to_end_rebuilt:
  "0 < k \<Longrightarrow>
   read_to_end cd k acc (NopCloserMulti [BytesReader pre, BodyReader Orig]) w
     = Some (acc @ pre @ pending w, fin (src w))"
proof (induction "length pre" arbitrary: acc pre rule: less_induct)
  case less
  show ?case
  proof (cases "pre = []")
    case True
    have "read_to_end cd k acc (NopCloserMulti [BytesReader [], BodyReader Orig]) w
            = read_to_end cd k acc (NopCloserMulti [BodyReader Orig]) w"
      by (subst read_to_end.simps, subst (2) read_to_end.simps)
         (simp only: read_multi_header_nil)
    with True read_to_end_multi_body [OF less.prems, of cd acc w] show ?thesis by simp
  next
    case False
    have shorter: "length (drop k pre) < length pre" using False less.prems by simp
    have unfold: "read_to_end cd k acc (NopCloserMulti [BytesReader pre, BodyReader Orig]) w
          = read_to_end cd k (acc @ take k pre) (NopCloserMulti [BytesReader (drop k pre), BodyReader Orig]) w"
      using False by (subst read_to_end.simps) (simp add: read_multi_header_Cons del: read_body.simps)
    have "read_to_end cd k (acc @ take k pre) (NopCloserMulti [BytesReader (drop k pre), BodyReader Orig]) w
            = Some ((acc @ take k pre) @ drop k pre @ pending w, fin (src w))"
      by (rule less.hyps [OF shorter less.prems])
    then show ?thesis unfolding unfold by simp
  qed
qed

text \<open>
  C7. In the deflate branch, once the two-byte peek has succeeded on the transport stream,
  the body handed to the selected decoder (or left as the body when no decoder is
  attached) is the reader \<open>rb\<close>; read to exhaustion with any non-empty buffer it yields
  the two peeked bytes followed by the rest of the stream, which is exactly what reading
  the original stream to exhaustion would have yielded before the call, ending with the
  same error.
\<close>

theorem deflate_rebuilt_stream_complete:
  assumes "Get (Header res) ''Content-Encoding'' = ''deflate''" and "Body res = Orig"
    and "pending w = h0 # h1 # rest" and "0 < k"
  shows "\<exists>res' w' rb. DecompressBody cd res w = Some (res', w')
           \<and> rb = NopCloserMulti [BytesReader [h0, h1], BodyReader Orig]
           \<and> (Body res' = ZlibDeflateReader rb None None \<or> Body res' = DeflateReader rb None None
                \<or> Body res' = rb)
           \<and> pending w' = rest
           \<and> read_to_end cd k [] rb w' = Some (h0 # h1 # rest, fin (src w))
           \<and> read_to_end cd k [] Orig w = Some (h0 # h1 # rest, fin (src w))"
proof -
  let ?rb = "NopCloserMulti [BytesReader [h0, h1], BodyReader Orig]"
  from deflate_Orig_ok [OF assms(1-3), of cd] obtain w' where
    d: "DecompressBody cd res w = Some (deflate_case res [h0, h1] Orig, w')"
    and p: "pending w' = rest" and f: "fin (src w') = fin (src w)" by blast
  have b: "Body (deflate_case res [h0, h1] Orig) = ZlibDeflateReader ?rb None None
         \<or> Body (deflate_case res [h0, h1] Orig) = DeflateReader ?rb None None
         \<or> Body (deflate_case res [h0, h1] Orig) = ?rb"
    by (simp add: deflate_case_def Let_def)
  have r1: "read_to_end cd k [] ?rb w' = Some (h0 # h1 # rest, fin (src w))"
    using read_to_end_rebuilt [OF assms(4), of cd "[]" "[h0, h1]" w'] p f by simp
  have r2: "read_to_end cd k [] Orig w = Some (h0 # h1 # rest, fin (src w))"
    using read_to_end_Orig [OF assms(4), of cd "[]" w] assms(3) by simp
  from d b p r1 r2 show ?thesis by blast
qed

theorem deflate_rebuilt_stream_complete_witness:
  "Get (Header (demo_response ''deflate'')) ''Content-Encoding'' = ''deflate''
   \<and> Body (demo_response ''deflate'') = Orig
   \<and> pending (demo_world [[0x78], [], [0x9C, 1, 2], [3]]) = 0x78 # 0x9C # [1, 2, 3]
   \<and> (0::nat) < 2
   \<and> (\<exists>res' w' rb. DecompressBody demo_codec (demo_response ''deflate'')
                       (demo_world [[0x78], [], [0x9C, 1, 2], [3]]) = Some (res', w')
           \<and> rb = NopCloserMulti [BytesReader [0x78, 0x9C], BodyReader Orig]
           \<and> (Body res' = ZlibDeflateReader rb None None \<or> Body res' = DeflateReader rb None None
                \<or> Body res' = rb)
           \<and> pending w' = [1, 2, 3]
           \<and> read_to_end demo_codec 2 [] rb w'
               = Some (0x78 # 0x9C # [1, 2, 3], fin (src (demo_world [[0x78], [], [0x9C, 1, 2], [3]])))
           \<and> read_to_end demo_codec 2 [] Orig (demo_world [[0x78], [], [0x9C, 1, 2], [3]])
               = Some (0x78 # 0x9C # [1, 2, 3], fin (src (demo_world [[0x78], [], [0x9C, 1, 2], [3]]))))
   \<and> read_to_end demo_codec 2 [] (NopCloserMulti [BytesReader [0x78, 0x9C], BodyReader Orig])
        (demo_world [[1, 2], [3]]) = Some ([0x78, 0x9C, 1, 2, 3], EOF)"
proof -
  have h1: "Get (Header (demo_response ''deflate'')) ''Content-Encoding'' = ''deflate''"
    by (simp add: demo_response_def Get_def)
  have h2: "Body (demo_response ''deflate'') = Orig"
    by (simp add: demo_response_def)
  have h3: "pending (demo_world [[0x78], [], [0x9C, 1, 2], [3]]) = 0x78 # 0x9C # [1, 2, 3]"
    by (simp add: pending_def demo_world_def)
  have h4: "(0::nat) < 2" by simp
  have v: "read_to_end demo_codec 2 [] (NopCloserMulti [BytesReader [0x78, 0x9C], BodyReader Orig])
        (demo_world [[1, 2], [3]]) = Some ([0x78, 0x9C, 1, 2, 3], EOF)"
    by (simp add: read_to_end.simps demo_world_def bytesReader_Read_def source_Read_def log_def)
  note t = deflate_rebuilt_stream_complete [OF h1 h2 h3 h4, of demo_codec]
  from h1 h2 h3 h4 t v show ?thesis by (intro conjI)
qed

end
